theory Spec2Isabelle
  imports Complex_Main
begin

section \<open>The 8-ary 3D signal simulation (main.py)\<close>

text \<open>
  The script is a straight line of array computations over numpy. Its numbers are
  modelled as follows.
  \<^item> A float64 is a real number and its arithmetic is exact: rounding, overflow and
    the special values are not represented. The one place where the script can
    produce \<open>nan\<close> from finite input, \<open>np.sqrt\<close> of a negative number, returns
    \<open>None\<close>, as does the division by \<open>N = 0\<close>.
  \<^item> An array of shape \<open>(n, 3)\<close> is a list of triples; a one-dimensional integer
    array is a list of naturals (all indices of the script are non-negative).
  \<^item> A numpy exception is a value of \<open>py_error\<close>.
  \<^item> The global random generator is a pair of streams: the values it will hand to
    \<open>randint\<close> and the standard normal deviates it will hand to \<open>normal\<close>.
\<close>

datatype py_error = ValueError | IndexError

type_synonym point = "real \<times> real \<times> real"

fun padd :: "point \<Rightarrow> point \<Rightarrow> point" where
  "padd (a, b, c) (x, y, z) = (a + x, b + y, c + z)"

fun psub :: "point \<Rightarrow> point \<Rightarrow> point" where
  "psub (a, b, c) (x, y, z) = (a - x, b - y, c - z)"

text \<open>\<open>np.linalg.norm\<close> along the last axis: \<open>sqrt(sum(abs(v)**2))\<close>.\<close>

fun norm3 :: "point \<Rightarrow> real" where
  "norm3 (x, y, z) = sqrt (\<bar>x\<bar>\<^sup>2 + \<bar>y\<bar>\<^sup>2 + \<bar>z\<bar>\<^sup>2)"

text \<open>Column \<open>j\<close> of a row of an \<open>(n, 3)\<close> array.\<close>

fun coord :: "point \<Rightarrow> nat \<Rightarrow> real" where
  "coord (x, y, z) j = (if j = 0 then x else if j = 1 then y else z)"

subsection \<open>Step 1: basic parameters\<close>

text \<open>
  \<open>A\<close>, \<open>N\<close> and \<open>N0\<close> are the arguments of the functions below (the script binds them
  to \<open>0.01\<close>, \<open>10000\<close> and \<open>2e-4\<close>); \<open>M = 8\<close> is fixed.
\<close>

definition M :: nat where
  "M = 8"

definition noise_var :: "real \<Rightarrow> real" where
  "noise_var N0 = N0 / 2"

definition np_sqrt :: "real \<Rightarrow> real option" where
  "np_sqrt v = (if v < 0 then None else Some (sqrt v))"

definition sigma :: "real \<Rightarrow> real option" where
  "sigma N0 = np_sqrt (noise_var N0)"

subsection \<open>Step 2: constellation points\<close>

text \<open>
  \<open>itertools.product([-A, A], repeat=3)\<close> yields the triples of the nested loops
  \<open>for x in [-A, A] for y in [-A, A] for z in [-A, A]\<close>, the last one varying fastest.
\<close>

definition points :: "real \<Rightarrow> point list" where
  "points A = [(x, y, z). x \<leftarrow> [- A, A], y \<leftarrow> [- A, A], z \<leftarrow> [- A, A]]"

definition const_points :: "real \<Rightarrow> point list" where
  "const_points A = points A"

subsection \<open>Step 3: transmit random symbols\<close>

record rng =
  randint_draws :: "nat \<Rightarrow> nat"
  normal_draws :: "nat \<Rightarrow> real"

text \<open>
  \<open>np.random.randint(0, M, N)\<close>: \<open>N\<close> values, each in \<open>[0, M)\<close>. The stream is
  reduced modulo \<open>M\<close> so that every stream is a legal outcome and every legal outcome
  is the image of a stream.
\<close>

definition tx_index :: "rng \<Rightarrow> nat \<Rightarrow> nat list" where
  "tx_index g N = map (\<lambda>i. randint_draws g i mod M) [0..<N]"

text \<open>\<open>const_points[tx_index]\<close>: an index beyond the array raises \<open>IndexError\<close>.\<close>

definition tx_data :: "point list \<Rightarrow> nat list \<Rightarrow> py_error + point list" where
  "tx_data cp idx =
     (if \<forall>i \<in> set idx. i < length cp then Inr (map (\<lambda>i. cp ! i) idx)
      else Inl IndexError)"

subsection \<open>Step 4: add noise\<close>

text \<open>
  \<open>np.random.normal(0, sigma, tx_data.shape)\<close>: a negative scale raises
  \<open>ValueError\<close>; otherwise each of the \<open>n * 3\<close> entries is \<open>loc + scale * z\<close> for the
  next standard normal deviate \<open>z\<close>, row by row.
\<close>

definition noise :: "rng \<Rightarrow> real \<Rightarrow> nat \<Rightarrow> py_error + point list" where
  "noise g sg n =
     (if sg < 0 then Inl ValueError
      else Inr (map (\<lambda>i. (0 + sg * normal_draws g (3 * i),
                           0 + sg * normal_draws g (3 * i + 1),
                           0 + sg * normal_draws g (3 * i + 2))) [0..<n]))"

text \<open>\<open>tx_data + noise\<close>, two arrays of the same shape.\<close>

definition rx_data :: "point list \<Rightarrow> point list \<Rightarrow> point list" where
  "rx_data td nz = map2 padd td nz"

subsection \<open>Step 5: ML detection (nearest point)\<close>

text \<open>
  \<open>np.argmin\<close> of a one-dimensional array scans it from the left and moves to a new
  position only on a strictly smaller value; an empty array raises \<open>ValueError\<close>.
\<close>

fun argmin_scan :: "real list \<Rightarrow> nat \<Rightarrow> real \<Rightarrow> nat \<Rightarrow> nat" where
  "argmin_scan [] i mp ip = ip"
| "argmin_scan (v # vs) i mp ip =
     (if v < mp then argmin_scan vs (Suc i) v i else argmin_scan vs (Suc i) mp ip)"

definition argmin :: "real list \<Rightarrow> py_error + nat" where
  "argmin vs = (case vs of [] \<Rightarrow> Inl ValueError | v # rest \<Rightarrow> Inr (argmin_scan rest 1 v 0))"

text \<open>\<open>np.linalg.norm(const - r, axis=1)\<close>: \<open>r\<close> is subtracted from every row.\<close>

definition row_norms :: "point list \<Rightarrow> point \<Rightarrow> real list" where
  "row_norms cp r = map (\<lambda>c. norm3 (psub c r)) cp"

text \<open>The loop of \<open>detect\<close>, with the list \<open>detected\<close> as its state.\<close>

fun detect_loop :: "point list \<Rightarrow> point list \<Rightarrow> nat list \<Rightarrow> py_error + nat list" where
  "detect_loop [] cp detected = Inr detected"
| "detect_loop (r # rs) cp detected =
     (case argmin (row_norms cp r) of
        Inl e \<Rightarrow> Inl e
      | Inr idx \<Rightarrow> detect_loop rs cp (detected @ [idx]))"

definition detect :: "point list \<Rightarrow> point list \<Rightarrow> py_error + nat list" where
  "detect received cp = detect_loop received cp []"

subsection \<open>Step 6: error rate\<close>

text \<open>\<open>np.sum(tx_index != rx_index)\<close> for two arrays of the same length.\<close>

definition errors :: "nat list \<Rightarrow> nat list \<Rightarrow> nat" where
  "errors ti ri = length (filter (\<lambda>(a, b). a \<noteq> b) (zip ti ri))"

text \<open>\<open>errors / N\<close>: for \<open>N = 0\<close> numpy returns \<open>nan\<close> or \<open>inf\<close> with a warning.\<close>

definition Pe :: "nat \<Rightarrow> nat \<Rightarrow> real option" where
  "Pe e N = (if N = 0 then None else Some (real e / real N))"

subsection \<open>Steps 1 to 6 as one run\<close>

record outputs =
  out_const_points :: "point list"
  out_tx_index :: "nat list"
  out_tx_data :: "point list"
  out_noise :: "point list"
  out_rx_data :: "point list"
  out_rx_index :: "nat list"
  out_errors :: nat
  out_Pe :: "real option"

text \<open>
  The outer \<open>None\<close> is a run whose \<open>sigma\<close> is \<open>nan\<close> (negative \<open>N0\<close>): the script goes
  on with arrays of \<open>nan\<close>, which this model does not represent.
\<close>

definition run :: "real \<Rightarrow> nat \<Rightarrow> real \<Rightarrow> rng \<Rightarrow> (py_error + outputs) option" where
  "run A N N0 g =
     (case sigma N0 of
        None \<Rightarrow> None
      | Some sg \<Rightarrow> Some
         (let cp = const_points A; ti = tx_index g N in
          case tx_data cp ti of
            Inl e \<Rightarrow> Inl e
          | Inr td \<Rightarrow>
             (case noise g sg (length td) of
                Inl e \<Rightarrow> Inl e
              | Inr nz \<Rightarrow>
                 (let rx = rx_data td nz in
                  case detect rx cp of
                    Inl e \<Rightarrow> Inl e
                  | Inr ri \<Rightarrow>
                     (let e = errors ti ri in
                      Inr \<lparr>out_const_points = cp, out_tx_index = ti, out_tx_data = td,
                           out_noise = nz, out_rx_data = rx, out_rx_index = ri,
                           out_errors = e, out_Pe = Pe e N\<rparr>)))))"

subsection \<open>Step 10: decision boundaries (z = 0 slice)\<close>

text \<open>
  \<open>np.linspace(start, stop, num)\<close>: \<open>arange(num) * step + start\<close> with
  \<open>step = (stop - start) / (num - 1)\<close>, the last entry then overwritten by \<open>stop\<close>.
\<close>

definition linspace :: "real \<Rightarrow> real \<Rightarrow> nat \<Rightarrow> real list" where
  "linspace start stop num =
     (let step = (stop - start) / real (num - 1);
          y = map (\<lambda>i. real i * step + start) [0..<num]
      in if 1 < num then y[num - 1 := stop] else y)"

definition grid :: "real \<Rightarrow> real list" where
  "grid A = linspace (- 2 * A) (2 * A) 200"

text \<open>\<open>np.meshgrid(xs, ys)\<close>: \<open>X[r][c] = xs[c]\<close> and \<open>Y[r][c] = ys[r]\<close>.\<close>

definition meshgrid :: "real list \<Rightarrow> real list \<Rightarrow> real list list \<times> real list list" where
  "meshgrid xs ys = (replicate (length ys) xs, map (\<lambda>y. replicate (length xs) y) ys)"

definition X :: "real \<Rightarrow> real list list" where
  "X A = fst (meshgrid (grid A) (grid A))"

definition Y :: "real \<Rightarrow> real list list" where
  "Y A = snd (meshgrid (grid A) (grid A))"

definition zeros_like :: "real list list \<Rightarrow> real list list" where
  "zeros_like m = map (map (\<lambda>_. 0)) m"

definition Z :: "real \<Rightarrow> real list list" where
  "Z A = zeros_like (X A)"

definition flatten :: "real list list \<Rightarrow> real list" where
  "flatten m = concat m"

text \<open>\<open>np.stack((xs, ys, zs), axis=1)\<close> of three arrays of one length.\<close>

definition stack3 :: "real list \<Rightarrow> real list \<Rightarrow> real list \<Rightarrow> point list" where
  "stack3 xs ys zs = zip xs (zip ys zs)"

definition all_points :: "real \<Rightarrow> point list" where
  "all_points A = stack3 (flatten (X A)) (flatten (Y A)) (flatten (Z A))"

text \<open>
  \<open>np.linalg.norm(all_points[:, None, :] - const_points[None, :, :], axis=2)\<close>: entry
  \<open>(k, i)\<close> is the norm of \<open>all_points[k] - const_points[i]\<close>.
\<close>

definition distances :: "point list \<Rightarrow> point list \<Rightarrow> real list list" where
  "distances ap cp = map (\<lambda>p. map (\<lambda>c. norm3 (psub p c)) cp) ap"

text \<open>
  \<open>np.argmin(d, axis=1)\<close> for \<open>d\<close> of shape \<open>(n, m)\<close>: a reduction over an axis of
  length \<open>m = 0\<close> raises \<open>ValueError\<close>, whatever \<open>n\<close> is.
\<close>

fun argmin_rows :: "real list list \<Rightarrow> py_error + nat list" where
  "argmin_rows [] = Inr []"
| "argmin_rows (row # rows) =
     (case argmin row of
        Inl e \<Rightarrow> Inl e
      | Inr i \<Rightarrow> (case argmin_rows rows of Inl e \<Rightarrow> Inl e | Inr js \<Rightarrow> Inr (i # js)))"

definition argmin_axis1 :: "nat \<Rightarrow> real list list \<Rightarrow> py_error + nat list" where
  "argmin_axis1 m d = (if m = 0 then Inl ValueError else argmin_rows d)"

text \<open>The vectorised nearest-point search, before the reshape.\<close>

definition closest_flat :: "point list \<Rightarrow> point list \<Rightarrow> py_error + nat list" where
  "closest_flat ap cp = argmin_axis1 (length cp) (distances ap cp)"

definition shape2 :: "real list list \<Rightarrow> nat \<times> nat" where
  "shape2 m = (length m, case m of [] \<Rightarrow> 0 | row # _ \<Rightarrow> length row)"

text \<open>\<open>a.reshape((rows, cols))\<close>: \<open>ValueError\<close> unless the sizes agree.\<close>

definition reshape2 :: "nat \<times> nat \<Rightarrow> nat list \<Rightarrow> py_error + nat list list" where
  "reshape2 sh a =
     (case sh of (rows, cols) \<Rightarrow>
        if length a = rows * cols
        then Inr (map (\<lambda>r. take cols (drop (r * cols) a)) [0..<rows])
        else Inl ValueError)"

definition closest :: "real \<Rightarrow> py_error + nat list list" where
  "closest A =
     (case closest_flat (all_points A) (const_points A) of
        Inl e \<Rightarrow> Inl e
      | Inr a \<Rightarrow> reshape2 (shape2 (X A)) a)"

subsection \<open>Notions of the specification\<close>


text \<open>The index \<open>np.argmin\<close> returns when it returns one.\<close>

definition argmin_idx :: "real list \<Rightarrow> nat" where
  "argmin_idx vs = (case argmin vs of Inr k \<Rightarrow> k | Inl _ \<Rightarrow> 0)"

text \<open>A generator whose streams are constantly zero, for concrete runs.\<close>

definition rng0 :: rng where
  "rng0 = \<lparr>randint_draws = (\<lambda>_. 0), normal_draws = (\<lambda>_. 0)\<rparr>"

section \<open>Properties\<close>

subsection \<open>The scan of \<open>np.argmin\<close>\<close>


lemma argmin_scan_spec:
  assumes "length pre = i" and "ip < i" and "mp = pre ! ip"
    and "\<forall>j<i. mp \<le> pre ! j" and "\<forall>j<ip. mp < pre ! j"
  shows "argmin_scan vs i mp ip < length (pre @ vs) \<and>
         (\<forall>j<length (pre @ vs). (pre @ vs) ! argmin_scan vs i mp ip \<le> (pre @ vs) ! j) \<and>
         (\<forall>j<argmin_scan vs i mp ip. (pre @ vs) ! argmin_scan vs i mp ip < (pre @ vs) ! j)"
  using assms
proof (induction vs arbitrary: pre i mp ip)
  case Nil
  then show ?case by (simp add: nth_append)
next
  case (Cons v vs)
  show ?case
  proof (cases "v < mp")
    case True
    have a: "length (pre @ [v]) = Suc i" using Cons.prems by simp
    have b: "i < Suc i" by simp
    have c: "v = (pre @ [v]) ! i" using Cons.prems by (simp add: nth_append)
    have lt: "v < pre ! j" if "j < i" for j
    proof -
      have "mp \<le> pre ! j" using Cons.prems(4) that by blast
      then show ?thesis using True by simp
    qed
    have d: "\<forall>j<Suc i. v \<le> (pre @ [v]) ! j"
    proof (intro allI impI)
      fix j assume "j < Suc i"
      then consider "j < i" | "j = i" by linarith
      then show "v \<le> (pre @ [v]) ! j"
      proof cases
        case 1
        then show ?thesis using lt [of j] Cons.prems(1) by (simp add: nth_append)
      next
        case 2
        then show ?thesis using Cons.prems(1) by (simp add: nth_append)
      qed
    qed
    have e: "\<forall>j<i. v < (pre @ [v]) ! j"
      using lt Cons.prems(1) by (simp add: nth_append)
    from Cons.IH [OF a b c d e] True show ?thesis by simp
  next
    case False
    have a: "length (pre @ [v]) = Suc i" using Cons.prems by simp
    have b: "ip < Suc i" using Cons.prems by simp
    have c: "mp = (pre @ [v]) ! ip" using Cons.prems by (simp add: nth_append)
    have d: "\<forall>j<Suc i. mp \<le> (pre @ [v]) ! j"
    proof (intro allI impI)
      fix j assume "j < Suc i"
      then consider "j < i" | "j = i" by linarith
      then show "mp \<le> (pre @ [v]) ! j"
      proof cases
        case 1
        then show ?thesis using Cons.prems(1,4) by (simp add: nth_append)
      next
        case 2
        then show ?thesis using Cons.prems(1) False by (simp add: nth_append)
      qed
    qed
    have e: "\<forall>j<ip. mp < (pre @ [v]) ! j"
      using Cons.prems(1,2,5) by (simp add: nth_append)
    from Cons.IH [OF a b c d e] False show ?thesis by simp
  qed
qed

lemma argmin_spec:
  assumes "vs \<noteq> []"
  shows "argmin vs = Inr (argmin_idx vs) \<and> argmin_idx vs < length vs \<and>
         (\<forall>j<length vs. vs ! argmin_idx vs \<le> vs ! j) \<and>
         (\<forall>j<argmin_idx vs. vs ! argmin_idx vs < vs ! j)"
proof -
  from assms obtain v rest where vs: "vs = v # rest" by (cases vs) auto
  have "argmin_scan rest 1 v 0 < length ([v] @ rest) \<and>
         (\<forall>j<length ([v] @ rest). ([v] @ rest) ! argmin_scan rest 1 v 0 \<le> ([v] @ rest) ! j) \<and>
         (\<forall>j<argmin_scan rest 1 v 0. ([v] @ rest) ! argmin_scan rest 1 v 0 < ([v] @ rest) ! j)"
    by (rule argmin_scan_spec) simp_all
  then show ?thesis by (simp add: vs argmin_def argmin_idx_def)
qed

lemma detect_loop_closed:
  "cp \<noteq> [] \<Longrightarrow>
   detect_loop rs cp acc = Inr (acc @ map (\<lambda>r. argmin_idx (row_norms cp r)) rs)"
proof (induction rs arbitrary: acc)
  case Nil
  then show ?case by simp
next
  case (Cons r rs)
  have "row_norms cp r \<noteq> []" using Cons.prems by (simp add: row_norms_def)
  then have "argmin (row_norms cp r) = Inr (argmin_idx (row_norms cp r))"
    using argmin_spec by blast
  then show ?case using Cons by simp
qed

lemma detect_closed:
  "cp \<noteq> [] \<Longrightarrow> detect rs cp = Inr (map (\<lambda>r. argmin_idx (row_norms cp r)) rs)"
  by (simp add: detect_def detect_loop_closed)

lemma argmin_rows_closed:
  "\<forall>row \<in> set d. row \<noteq> [] \<Longrightarrow> argmin_rows d = Inr (map argmin_idx d)"
proof (induction d)
  case Nil
  then show ?case by simp
next
  case (Cons row d)
  then have "argmin row = Inr (argmin_idx row)" using argmin_spec by simp
  then show ?case using Cons by simp
qed

lemma norm3_psub_commute: "norm3 (psub p c) = norm3 (psub c p)"
  by (cases p; cases c) (simp add: power2_commute)


lemma distances_row_norms: "distances ap cp = map (row_norms cp) ap"
  by (simp add: distances_def row_norms_def norm3_psub_commute)

lemma closest_flat_closed:
  "cp \<noteq> [] \<Longrightarrow> closest_flat ap cp = Inr (map (\<lambda>p. argmin_idx (row_norms cp p)) ap)"
proof -
  assume ne: "cp \<noteq> []"
  then have "\<forall>row \<in> set (map (row_norms cp) ap). row \<noteq> []"
    by (simp add: row_norms_def)
  then have "argmin_rows (map (row_norms cp) ap) = Inr (map argmin_idx (map (row_norms cp) ap))"
    by (rule argmin_rows_closed)
  then show ?thesis using ne
    by (simp add: closest_flat_def argmin_axis1_def distances_row_norms o_def)
qed

subsection \<open>The detector\<close>



text \<open>
  C7. The loop of \<open>detect\<close> and the argmin over the rows of the full distance matrix
  return the same index sequence, for every list of query points and every non-empty
  constellation.
\<close>

theorem loop_detect_equals_vectorised:
  "cp \<noteq> [] \<Longrightarrow> detect qs cp = closest_flat qs cp"
  by (simp add: detect_closed closest_flat_closed)

theorem loop_detect_equals_vectorised_witness:
  "const_points 1 \<noteq> [] \<and>
   detect [(1 / 2, 1 / 2, 0)] (const_points 1) = Inr [6] \<and>
   closest_flat [(1 / 2, 1 / 2, 0)] (const_points 1) = Inr [6]"
  using loop_detect_equals_vectorised [of "const_points 1" "[(1 / 2, 1 / 2, 0)]"]
  by (simp add: detect_def row_norms_def argmin_def const_points_def points_def
      closest_flat_def argmin_axis1_def distances_def power2_eq_square)

subsection \<open>The constellation\<close>

lemma const_points_list:
  "const_points A =
     [(- A, - A, - A), (- A, - A, A), (- A, A, - A), (- A, A, A),
      (A, - A, - A), (A, - A, A), (A, A, - A), (A, A, A)]"
  by (simp add: const_points_def points_def)

lemma const_points_length: "length (const_points A) = 8"
  by (simp add: const_points_list)

lemma const_points_distinct: "A \<noteq> 0 \<Longrightarrow> distinct (const_points A)"
  by (simp add: const_points_list)

lemma less_8_cases:
  "i < (8::nat) \<Longrightarrow> i = 0 \<or> i = 1 \<or> i = 2 \<or> i = 3 \<or> i = 4 \<or> i = 5 \<or> i = 6 \<or> i = 7"
  by linarith

lemma less_3_cases: "j < (3::nat) \<Longrightarrow> j = 0 \<or> j = 1 \<or> j = 2"
  by linarith

lemma const_points_coord:
  assumes "i < 8" and "j < 3"
  shows "coord (const_points A ! i) j = (if bit i (2 - j) then A else - A)"
  using less_8_cases [OF assms(1)] less_3_cases [OF assms(2)]
  by (elim disjE) (simp_all add: const_points_list bit_iff_odd)

text \<open>
  C2. For every amplitude \<open>A > 0\<close> the constellation has exactly 8 pairwise different
  points, every coordinate of every point is \<open>-A\<close> or \<open>+A\<close>, each of the 8 sign
  combinations occurs exactly once, and \<open>(-A, -A, -A)\<close> and \<open>(A, A, A)\<close> are among them.
\<close>

theorem constellation_cube_corners:
  assumes "0 < A"
  shows "length (const_points A) = 8 \<and> distinct (const_points A) \<and>
         (\<forall>p \<in> set (const_points A). \<forall>j<3. coord p j = - A \<or> coord p j = A) \<and>
         (\<forall>x \<in> {- A, A}. \<forall>y \<in> {- A, A}. \<forall>z \<in> {- A, A}.
            count_list (const_points A) (x, y, z) = 1) \<and>
         (- A, - A, - A) \<in> set (const_points A) \<and> (A, A, A) \<in> set (const_points A)"
proof -
  have ne: "A \<noteq> 0" "A \<noteq> - A" "- A \<noteq> A" using assms by simp_all
  have 1: "length (const_points A) = 8" by (rule const_points_length)
  have 2: "distinct (const_points A)" using ne by (simp add: const_points_distinct)
  have 3: "\<forall>p \<in> set (const_points A). \<forall>j<3. coord p j = - A \<or> coord p j = A"
    by (simp add: const_points_list)
  have 4: "\<forall>x \<in> {- A, A}. \<forall>y \<in> {- A, A}. \<forall>z \<in> {- A, A}.
            count_list (const_points A) (x, y, z) = 1"
    using ne by (simp add: const_points_list)
  have 5: "(- A, - A, - A) \<in> set (const_points A)" "(A, A, A) \<in> set (const_points A)"
    by (simp_all add: const_points_list)
  show ?thesis using 1 2 3 4 5 by blast
qed

theorem constellation_cube_corners_witness:
  "(0::real) < 1 / 100 \<and> length (const_points (1 / 100)) = 8 \<and>
   count_list (const_points (1 / 100)) (- (1 / 100), 1 / 100, - (1 / 100)) = 1 \<and>
   (- (1 / 100), - (1 / 100), - (1 / 100)) \<in> set (const_points (1 / 100)) \<and>
   (1 / 100, 1 / 100, 1 / 100) \<in> set (const_points (1 / 100))"
  using constellation_cube_corners [of "1 / 100"]
  by (simp add: const_points_list)

text \<open>
  C10. The enumeration is lexicographic with \<open>-A\<close> before \<open>+A\<close>: entry 0 is
  \<open>(-A, -A, -A)\<close>, entry 7 is \<open>(A, A, A)\<close>, and coordinate \<open>j\<close> of entry \<open>i\<close> is \<open>+A\<close>
  when bit \<open>2 - j\<close> of \<open>i\<close> is set and \<open>-A\<close> otherwise; for \<open>A \<noteq> 0\<close> the coordinate is
  \<open>+A\<close> exactly when that bit is set.
\<close>

theorem constellation_order_binary:
  "const_points A ! 0 = (- A, - A, - A) \<and> const_points A ! 7 = (A, A, A) \<and>
   (\<forall>i<8. \<forall>j<3. coord (const_points A ! i) j = (if bit i (2 - j) then A else - A)) \<and>
   (A \<noteq> 0 \<longrightarrow> (\<forall>i<8. \<forall>j<3. coord (const_points A ! i) j = A \<longleftrightarrow> bit i (2 - j)))"
proof -
  have 1: "const_points A ! 0 = (- A, - A, - A)" "const_points A ! 7 = (A, A, A)"
    by (simp_all add: const_points_list)
  have 2: "\<forall>i<8. \<forall>j<3. coord (const_points A ! i) j = (if bit i (2 - j) then A else - A)"
    using const_points_coord by blast
  have 3: "\<forall>i<8. \<forall>j<3. coord (const_points A ! i) j = A \<longleftrightarrow> bit i (2 - j)" if "A \<noteq> 0"
    using that by (simp add: const_points_coord)
  show ?thesis using 1 2 3 by blast
qed

theorem constellation_order_binary_witness:
  "const_points (1 / 100) ! 0 = (- (1 / 100), - (1 / 100), - (1 / 100)) \<and>
   const_points (1 / 100) ! 7 = (1 / 100, 1 / 100, 1 / 100) \<and>
   (5::nat) < 8 \<and> (1::nat) < 3 \<and> \<not> bit (5::nat) (2 - 1) \<and>
   coord (const_points (1 / 100) ! 5) 1 = - (1 / 100) \<and>
   coord (const_points (1 / 100) ! 5) 0 = 1 / 100"
  using constellation_order_binary [of "1 / 100"]
  by (simp add: const_points_list bit_iff_odd)

subsection \<open>Error accounting\<close>

lemma errors_card:
  "length ti = length ri \<Longrightarrow> errors ti ri = card {k. k < length ti \<and> ti ! k \<noteq> ri ! k}"
proof -
  assume len: "length ti = length ri"
  have "{i. i < length (zip ti ri) \<and> (case zip ti ri ! i of (a, b) \<Rightarrow> a \<noteq> b)} =
        {k. k < length ti \<and> ti ! k \<noteq> ri ! k}"
    using len by auto
  then show ?thesis by (simp add: errors_def length_filter_conv_card)
qed

lemma errors_le: "errors ti ri \<le> length ti"
proof -
  have "errors ti ri \<le> length (zip ti ri)" unfolding errors_def by (rule length_filter_le)
  then show ?thesis by simp
qed

text \<open>
  C4. For two index sequences of the same length \<open>N > 0\<close>, the error count is the
  number of positions where they differ and is at most \<open>N\<close>, and the error rate is
  the count divided by \<open>N\<close>, a number between 0 and 1.
\<close>

theorem error_count_and_rate:
  assumes "length ti = N" and "length ri = N" and "0 < N"
  shows "errors ti ri = card {k. k < N \<and> ti ! k \<noteq> ri ! k} \<and>
         errors ti ri \<le> N \<and>
         (\<exists>rate. Pe (errors ti ri) N = Some rate \<and>
            rate = real (errors ti ri) / real N \<and> 0 \<le> rate \<and> rate \<le> 1)"
proof -
  have 1: "errors ti ri = card {k. k < N \<and> ti ! k \<noteq> ri ! k}"
    using errors_card [of ti ri] assms by simp
  have 2: "errors ti ri \<le> N" using errors_le [of ti ri] assms by simp
  have 3: "Pe (errors ti ri) N = Some (real (errors ti ri) / real N)"
    using assms by (simp add: Pe_def)
  have 4: "0 \<le> real (errors ti ri) / real N" by simp
  have 5: "real (errors ti ri) / real N \<le> 1" using 2 assms(3) by simp
  show ?thesis using 1 2 3 4 5 by blast
qed

theorem error_count_and_rate_witness:
  "length [0, 5, 7 :: nat] = 3 \<and> length [0, 4, 7 :: nat] = 3 \<and> (0::nat) < 3 \<and>
   errors [0, 5, 7] [0, 4, 7] = 1 \<and> Pe (errors [0, 5, 7] [0, 4, 7]) 3 = Some (1 / 3)"
  using error_count_and_rate [of "[0, 5, 7]" 3 "[0, 4, 7]"]
  by (simp add: errors_def Pe_def)

subsection \<open>The stages of a run\<close>

lemma const_points_nonempty: "const_points A \<noteq> []"
  by (simp add: const_points_list)

lemma sigma_nonneg: "0 \<le> N0 \<Longrightarrow> sigma N0 = Some (sqrt (N0 / 2))"
  by (simp add: sigma_def np_sqrt_def noise_var_def)

lemma sigma_negative: "N0 < 0 \<Longrightarrow> sigma N0 = None"
  by (simp add: sigma_def np_sqrt_def noise_var_def)

lemma tx_index_length: "length (tx_index g N) = N"
  by (simp add: tx_index_def)

lemma tx_index_range: "\<forall>i \<in> set (tx_index g N). i < M"
  by (simp add: tx_index_def M_def)

lemma tx_data_ok:
  "\<forall>i \<in> set idx. i < length cp \<Longrightarrow> tx_data cp idx = Inr (map (\<lambda>i. cp ! i) idx)"
  by (simp add: tx_data_def)

lemma tx_data_const_points:
  "\<forall>i \<in> set idx. i < M \<Longrightarrow>
   tx_data (const_points A) idx = Inr (map (\<lambda>i. const_points A ! i) idx)"
  by (rule tx_data_ok) (simp add: const_points_length M_def)

lemma noise_ok:
  "0 \<le> sg \<Longrightarrow> \<exists>nz. noise g sg n = Inr nz \<and> length nz = n \<and>
     (\<forall>i<n. nz ! i = (sg * normal_draws g (3 * i), sg * normal_draws g (3 * i + 1),
                       sg * normal_draws g (3 * i + 2)))"
  by (simp add: noise_def)

lemma noise_zero: "noise g 0 n = Inr (replicate n (0, 0, 0))"
  by (simp add: noise_def map_replicate_const)

lemma rx_data_length: "length td = length nz \<Longrightarrow> length (rx_data td nz) = length td"
  by (simp add: rx_data_def)

lemma rx_data_nth:
  "i < length td \<Longrightarrow> i < length nz \<Longrightarrow> rx_data td nz ! i = padd (td ! i) (nz ! i)"
  by (simp add: rx_data_def)

lemma padd_zero: "padd p (0, 0, 0) = p"
  by (cases p) simp

lemma rx_data_zero: "rx_data td (replicate (length td) (0, 0, 0)) = td"
  by (rule nth_equalityI) (simp_all add: rx_data_def padd_zero)

lemma norm3_nonneg: "0 \<le> norm3 p"
  by (cases p) simp

lemma norm3_psub_zero_iff: "norm3 (psub p q) = 0 \<longleftrightarrow> p = q"
proof (cases p; cases q)
  fix a b c x y z :: real
  assume p: "p = (a, b, c)" and q: "q = (x, y, z)"
  have "(a - x)\<^sup>2 + (b - y)\<^sup>2 + (c - z)\<^sup>2 = 0 \<longleftrightarrow> a = x \<and> b = y \<and> c = z"
    by (simp add: add_nonneg_eq_0_iff)
  then show ?thesis by (simp add: p q)
qed

lemma nearest_self:
  assumes "A \<noteq> 0" and "t < 8"
  shows "argmin_idx (row_norms (const_points A) (const_points A ! t)) = t"
proof -
  let ?cp = "const_points A"
  let ?vs = "row_norms ?cp (?cp ! t)"
  have len: "length ?vs = 8" by (simp add: row_norms_def const_points_length)
  then have ne: "?vs \<noteq> []" by auto
  from argmin_spec [OF ne] have k: "argmin_idx ?vs < length ?vs"
    and le: "\<forall>j<length ?vs. ?vs ! argmin_idx ?vs \<le> ?vs ! j" by blast+
  have k8: "argmin_idx ?vs < 8" using k len by simp
  have "?vs ! t = 0"
    using assms(2) by (simp add: row_norms_def const_points_length norm3_psub_zero_iff)
  moreover have "?vs ! argmin_idx ?vs \<le> ?vs ! t" using le assms(2) len by simp
  moreover have "?vs ! argmin_idx ?vs = norm3 (psub (?cp ! argmin_idx ?vs) (?cp ! t))"
    using k8 by (simp add: row_norms_def const_points_length)
  ultimately have "norm3 (psub (?cp ! argmin_idx ?vs) (?cp ! t)) = 0"
    using norm3_nonneg [of "psub (?cp ! argmin_idx ?vs) (?cp ! t)"] by linarith
  then have "?cp ! argmin_idx ?vs = ?cp ! t" by (simp add: norm3_psub_zero_iff)
  then show ?thesis
    using const_points_distinct [OF assms(1)] k8 assms(2)
    by (simp add: nth_eq_iff_index_eq const_points_length)
qed

lemma detect_noiseless:
  assumes "A \<noteq> 0" and "\<forall>i \<in> set ti. i < M"
  shows "detect (map (\<lambda>i. const_points A ! i) ti) (const_points A) = Inr ti"
proof -
  have "map (\<lambda>r. argmin_idx (row_norms (const_points A) r)) (map (\<lambda>i. const_points A ! i) ti)
        = ti"
    using assms by (simp add: map_idI nearest_self M_def o_def)
  then show ?thesis by (simp add: detect_closed const_points_nonempty)
qed

lemma errors_same: "errors ti ti = 0"
  by (auto simp: errors_def filter_empty_conv in_set_zip)

lemma run_ok:
  assumes "0 \<le> N0"
  shows "\<exists>td nz ri.
           tx_data (const_points A) (tx_index g N) = Inr td \<and>
           noise g (sqrt (N0 / 2)) N = Inr nz \<and>
           detect (rx_data td nz) (const_points A) = Inr ri \<and>
           run A N N0 g = Some (Inr \<lparr>out_const_points = const_points A,
             out_tx_index = tx_index g N, out_tx_data = td, out_noise = nz,
             out_rx_data = rx_data td nz, out_rx_index = ri,
             out_errors = errors (tx_index g N) ri,
             out_Pe = Pe (errors (tx_index g N) ri) N\<rparr>)"
proof -
  let ?cp = "const_points A"
  let ?ti = "tx_index g N"
  let ?td = "map (\<lambda>i. ?cp ! i) ?ti"
  have s: "sigma N0 = Some (sqrt (N0 / 2))" using assms by (rule sigma_nonneg)
  have td: "tx_data ?cp ?ti = Inr ?td" using tx_index_range by (rule tx_data_const_points)
  have "0 \<le> sqrt (N0 / 2)" using assms by simp
  from noise_ok [OF this] obtain nz where nz: "noise g (sqrt (N0 / 2)) N = Inr nz" by blast
  let ?ri = "map (\<lambda>r. argmin_idx (row_norms ?cp r)) (rx_data ?td nz)"
  have ri: "detect (rx_data ?td nz) ?cp = Inr ?ri"
    by (simp add: detect_closed const_points_nonempty)
  have "run A N N0 g = Some (Inr \<lparr>out_const_points = ?cp,
             out_tx_index = ?ti, out_tx_data = ?td, out_noise = nz,
             out_rx_data = rx_data ?td nz, out_rx_index = ?ri,
             out_errors = errors ?ti ?ri, out_Pe = Pe (errors ?ti ?ri) N\<rparr>)"
    unfolding run_def by (simp add: s td nz ri tx_index_length Let_def)
  then show ?thesis using td nz ri by blast
qed

lemma sqrt_1e4: "sqrt (2 / 10 ^ 4 / 2) = 1 / 100"
  by (rule real_sqrt_unique) (simp_all add: power2_eq_square)

subsection \<open>The run\<close>

text \<open>
  C3. With \<open>N0 = 0\<close> the standard deviation is 0, the noise array is zero and the
  received points are the transmitted points; for an amplitude \<open>A \<noteq> 0\<close> and every
  sequence of indices below \<open>M = 8\<close> the detector returns that sequence, and a run of any
  length \<open>N\<close> detects its transmit sequence with no error.
\<close>

theorem noiseless_detection_exact:
  assumes "A \<noteq> 0" and "\<forall>i \<in> set ti. i < M"
  shows "sigma 0 = Some 0 \<and>
         (\<exists>td nz. tx_data (const_points A) ti = Inr td \<and> length td = length ti \<and>
            noise g 0 (length td) = Inr nz \<and> (\<forall>p \<in> set nz. p = (0, 0, 0)) \<and>
            rx_data td nz = td \<and>
            detect (rx_data td nz) (const_points A) = Inr ti) \<and>
         (\<exists>out. run A N 0 g = Some (Inr out) \<and> length (out_tx_index out) = N \<and>
            out_rx_data out = out_tx_data out \<and>
            out_rx_index out = out_tx_index out \<and> out_errors out = 0)"
proof -
  let ?cp = "const_points A"
  have s: "sigma 0 = Some 0" by (simp add: sigma_nonneg)
  have stage: "tx_data ?cp is = Inr (map (\<lambda>i. ?cp ! i) is) \<and>
      noise g 0 (length (map (\<lambda>i. ?cp ! i) is)) = Inr (replicate (length is) (0, 0, 0)) \<and>
      rx_data (map (\<lambda>i. ?cp ! i) is) (replicate (length is) (0, 0, 0)) = map (\<lambda>i. ?cp ! i) is \<and>
      detect (map (\<lambda>i. ?cp ! i) is) ?cp = Inr is"
    if "\<forall>i \<in> set is. i < M" for "is"
    using that assms(1) rx_data_zero [of "map (\<lambda>i. ?cp ! i) is"]
    by (simp add: tx_data_const_points noise_zero detect_noiseless)
  have 2: "\<exists>td nz. tx_data ?cp ti = Inr td \<and> length td = length ti \<and>
            noise g 0 (length td) = Inr nz \<and> (\<forall>p \<in> set nz. p = (0, 0, 0)) \<and>
            rx_data td nz = td \<and> detect (rx_data td nz) ?cp = Inr ti"
    using stage [OF assms(2)]
    by (intro exI [of _ "map (\<lambda>i. ?cp ! i) ti"] exI [of _ "replicate (length ti) (0, 0, 0)"])
      simp
  let ?ti = "tx_index g N"
  let ?td = "map (\<lambda>i. ?cp ! i) ?ti"
  from stage [OF tx_index_range, of g N]
  have r: "run A N 0 g = Some (Inr \<lparr>out_const_points = ?cp,
             out_tx_index = ?ti, out_tx_data = ?td, out_noise = replicate N (0, 0, 0),
             out_rx_data = ?td, out_rx_index = ?ti,
             out_errors = 0, out_Pe = Pe 0 N\<rparr>)"
    unfolding run_def by (simp add: s tx_index_length Let_def errors_same)
  have 3: "\<exists>out. run A N 0 g = Some (Inr out) \<and> length (out_tx_index out) = N \<and>
            out_rx_data out = out_tx_data out \<and>
            out_rx_index out = out_tx_index out \<and> out_errors out = 0"
    unfolding r by (simp add: tx_index_length)
  show ?thesis using s 2 3 by blast
qed

theorem noiseless_detection_exact_witness:
  "(1 / 100 :: real) \<noteq> 0 \<and> detect [(1 / 100, - (1 / 100), 1 / 100), (- (1 / 100), - (1 / 100), - (1 / 100))]
      (const_points (1 / 100)) = Inr [5, 0] \<and>
   tx_data (const_points (1 / 100)) [5, 0] =
     Inr [(1 / 100, - (1 / 100), 1 / 100), (- (1 / 100), - (1 / 100), - (1 / 100))]"
  using noiseless_detection_exact [of "1 / 100" "[5, 0]" rng0 2]
  by (auto simp: M_def tx_data_def const_points_list)

text \<open>
  C5. A run with symbol count \<open>N\<close> (and \<open>N0 \<ge> 0\<close>) ends without an exception; the
  transmit indices, transmit points, noise, received points and detected indices all
  have length \<open>N\<close>, and at every position \<open>i\<close> the transmit point is the constellation
  point of the transmit index, the received point is the transmit point plus the noise
  vector, and the detected index is the argmin computed from the received point.
\<close>

theorem pipeline_lengths_and_positions:
  assumes "0 \<le> N0"
  shows "\<exists>out. run A N N0 g = Some (Inr out) \<and>
           length (out_tx_index out) = N \<and> length (out_tx_data out) = N \<and>
           length (out_noise out) = N \<and> length (out_rx_data out) = N \<and>
           length (out_rx_index out) = N \<and>
           (\<forall>i<N. out_tx_index out ! i < length (out_const_points out) \<and>
              out_tx_data out ! i = out_const_points out ! (out_tx_index out ! i) \<and>
              out_rx_data out ! i = padd (out_tx_data out ! i) (out_noise out ! i) \<and>
              argmin (row_norms (out_const_points out) (out_rx_data out ! i)) =
                Inr (out_rx_index out ! i))"
proof -
  let ?cp = "const_points A"
  let ?ti = "tx_index g N"
  let ?td = "map (\<lambda>i. ?cp ! i) ?ti"
  have "0 \<le> sqrt (N0 / 2)" using assms by simp
  from noise_ok [OF this] obtain nz where nz: "noise g (sqrt (N0 / 2)) N = Inr nz"
    and lnz: "length nz = N" by blast
  let ?rx = "rx_data ?td nz"
  let ?ri = "map (\<lambda>r. argmin_idx (row_norms ?cp r)) ?rx"
  let ?out = "\<lparr>out_const_points = ?cp,
             out_tx_index = ?ti, out_tx_data = ?td, out_noise = nz,
             out_rx_data = ?rx, out_rx_index = ?ri,
             out_errors = errors ?ti ?ri, out_Pe = Pe (errors ?ti ?ri) N\<rparr>"
  have td: "tx_data ?cp ?ti = Inr ?td" using tx_index_range by (rule tx_data_const_points)
  have ri: "detect ?rx ?cp = Inr ?ri" by (simp add: detect_closed const_points_nonempty)
  have r: "run A N N0 g = Some (Inr ?out)"
    unfolding run_def by (simp add: sigma_nonneg [OF assms] td nz ri tx_index_length Let_def)
  have lrx: "length ?rx = N" by (simp add: rx_data_length lnz tx_index_length)
  have pos: "?ti ! i < length ?cp \<and> ?td ! i = ?cp ! (?ti ! i) \<and>
      ?rx ! i = padd (?td ! i) (nz ! i) \<and> argmin (row_norms ?cp (?rx ! i)) = Inr (?ri ! i)"
    if i: "i < N" for i
  proof -
    have a: "?ti ! i < length ?cp"
      using i by (simp add: tx_index_def M_def const_points_length)
    have b: "?td ! i = ?cp ! (?ti ! i)" using i by (simp add: tx_index_length)
    have c: "?rx ! i = padd (?td ! i) (nz ! i)"
      using i by (intro rx_data_nth) (simp_all add: tx_index_length lnz)
    have "row_norms ?cp (?rx ! i) \<noteq> []" by (simp add: row_norms_def const_points_nonempty)
    from argmin_spec [OF this]
    have d: "argmin (row_norms ?cp (?rx ! i)) = Inr (?ri ! i)" using i lrx by simp
    show ?thesis using a b c d by blast
  qed
  have every: "\<forall>i<N. ?ti ! i < length ?cp \<and> ?td ! i = ?cp ! (?ti ! i) \<and>
      ?rx ! i = padd (?td ! i) (nz ! i) \<and> argmin (row_norms ?cp (?rx ! i)) = Inr (?ri ! i)"
    using pos by blast
  have lens: "length ?ti = N" "length ?td = N" "length ?ri = N"
    by (simp_all add: tx_index_length lrx)
  show ?thesis
  proof (rule exI [of _ ?out], intro conjI)
    show "run A N N0 g = Some (Inr ?out)" by (rule r)
  qed (use lens lnz lrx every in \<open>simp_all only: outputs.simps\<close>)
qed

theorem pipeline_lengths_and_positions_witness:
  "(0::real) \<le> 0 \<and> (\<exists>out. run 1 2 0 rng0 = Some (Inr out) \<and> length (out_rx_index out) = 2
      \<and> out_rx_data out ! 1 = padd (out_tx_data out ! 1) (out_noise out ! 1))"
  using pipeline_lengths_and_positions [of 0 1 2 rng0]
  by auto

text \<open>
  C8. For \<open>N0 \<ge> 0\<close> the standard deviation is \<open>sqrt (N0 / 2)\<close>, and the noise array of
  a run is the one \<open>np.random.normal\<close> draws with exactly that scale: the run has no
  other input for it.
\<close>

theorem sigma_derived_from_N0:
  assumes "0 \<le> N0"
  shows "sigma N0 = Some (sqrt (N0 / 2)) \<and>
         (\<exists>out. run A N N0 g = Some (Inr out) \<and>
            noise g (sqrt (N0 / 2)) N = Inr (out_noise out))"
proof -
  from run_ok [OF assms, of A g N] show ?thesis
    using sigma_nonneg [OF assms] by auto
qed

theorem sigma_derived_from_N0_witness:
  "(0::real) \<le> 2 / 10 ^ 4 \<and> sigma (2 / 10 ^ 4) = Some (1 / 100)"
  using sigma_derived_from_N0 [of "2 / 10 ^ 4" "1 / 100" 1 rng0] sqrt_1e4
  by simp

text \<open>
  C9, as the specification states it, fails: the script validates nothing. A run
  with amplitude \<open>-1\<close> ends normally and its constellation is the cube of side 2,
  enumerated from \<open>(1, 1, 1)\<close>.
\<close>

theorem nonpositive_amplitude_not_rejected:
  "run (- 1) 1 0 rng0 = Some (Inr \<lparr>out_const_points =
       [(1, 1, 1), (1, 1, - 1), (1, - 1, 1), (1, - 1, - 1),
        (- 1, 1, 1), (- 1, 1, - 1), (- 1, - 1, 1), (- 1, - 1, - 1)],
     out_tx_index = [0], out_tx_data = [(1, 1, 1)], out_noise = [(0, 0, 0)],
     out_rx_data = [(1, 1, 1)], out_rx_index = [0], out_errors = 0, out_Pe = Some 0\<rparr>)"
  by (simp add: run_def sigma_def np_sqrt_def noise_var_def const_points_list tx_index_def
      rng0_def M_def tx_data_def noise_def rx_data_def detect_def row_norms_def argmin_def
      errors_def Pe_def Let_def)

text \<open>
  C9, amended. For every amplitude \<open>A\<close>, zero and negative ones included, the generator
  returns 8 points whose coordinates are each \<open>-A\<close> or \<open>A\<close>, and the run (for
  \<open>N0 \<ge> 0\<close>) ends normally with that constellation.
\<close>

theorem constellation_for_any_amplitude:
  "length (const_points A) = 8 \<and>
   (\<forall>p \<in> set (const_points A). \<forall>j<3. coord p j = - A \<or> coord p j = A) \<and>
   (0 \<le> N0 \<longrightarrow>
      (\<exists>out. run A N N0 g = Some (Inr out) \<and> out_const_points out = const_points A))"
proof -
  have 1: "length (const_points A) = 8" by (rule const_points_length)
  have 2: "\<forall>p \<in> set (const_points A). \<forall>j<3. coord p j = - A \<or> coord p j = A"
    by (simp add: const_points_list)
  have 3: "\<exists>out. run A N N0 g = Some (Inr out) \<and> out_const_points out = const_points A"
    if "0 \<le> N0"
    using run_ok [OF that, of A g N] by auto
  show ?thesis using 1 2 3 by blast
qed

theorem constellation_for_any_amplitude_witness:
  "length (const_points 0) = 8 \<and> (0, 0, 0) \<in> set (const_points 0) \<and>
   coord (0, 0, 0) 1 = (0::real) \<and> (1::nat) < 3 \<and> (0::real) \<le> 0 \<and>
   (\<exists>out. run 0 1 0 rng0 = Some (Inr out) \<and> out_const_points out = const_points 0)"
  using constellation_for_any_amplitude [of 0 0 1 rng0]
  by (simp add: const_points_list)

subsection \<open>The decision-region map\<close>

lemma const_points_mem:
  "(a, b, c) \<in> set (const_points A) \<longleftrightarrow>
   (a = - A \<or> a = A) \<and> (b = - A \<or> b = A) \<and> (c = - A \<or> c = A)"
  by (auto simp: const_points_list)

lemma argmin_idx_min_set:
  assumes "cp \<noteq> []"
  shows "argmin_idx (row_norms cp r) < length cp \<and>
         (\<forall>q \<in> set cp. norm3 (psub (cp ! argmin_idx (row_norms cp r)) r) \<le> norm3 (psub q r))"
proof -
  let ?vs = "row_norms cp r"
  have len: "length ?vs = length cp" by (simp add: row_norms_def)
  have ne: "?vs \<noteq> []" using assms by (simp add: row_norms_def)
  from argmin_spec [OF ne] have k: "argmin_idx ?vs < length cp"
    and le: "\<forall>j<length cp. ?vs ! argmin_idx ?vs \<le> ?vs ! j" using len by simp_all
  have "norm3 (psub (cp ! argmin_idx ?vs) r) \<le> norm3 (psub q r)" if "q \<in> set cp" for q
  proof -
    from that obtain j where j: "j < length cp" "cp ! j = q" by (auto simp: in_set_conv_nth)
    have "?vs ! argmin_idx ?vs \<le> ?vs ! j" using le j(1) by blast
    then show ?thesis using k j by (simp add: row_norms_def)
  qed
  then show ?thesis using k by blast
qed

lemma square_closer:
  fixes A x :: real
  assumes "0 < A * x"
  shows "(A - x)\<^sup>2 < (- A - x)\<^sup>2"
proof -
  have "(- A - x)\<^sup>2 - (A - x)\<^sup>2 = 4 * (A * x)"
    by (simp add: power2_eq_square algebra_simps)
  then show ?thesis using assms by linarith
qed

lemma square_closer_neg:
  fixes A x :: real
  assumes "A * x < 0"
  shows "(- A - x)\<^sup>2 < (A - x)\<^sup>2"
proof -
  have "(- A - x)\<^sup>2 - (A - x)\<^sup>2 = 4 * (A * x)"
    by (simp add: power2_eq_square algebra_simps)
  then show ?thesis using assms by linarith
qed

lemma nearest_octant:
  assumes A: "0 < A"
  shows "argmin_idx (row_norms (const_points A) (x, y, z)) < 8 \<and>
         (0 < x \<longrightarrow> coord (const_points A ! argmin_idx (row_norms (const_points A) (x, y, z))) 0 = A) \<and>
         (x < 0 \<longrightarrow> coord (const_points A ! argmin_idx (row_norms (const_points A) (x, y, z))) 0 = - A) \<and>
         (0 < y \<longrightarrow> coord (const_points A ! argmin_idx (row_norms (const_points A) (x, y, z))) 1 = A) \<and>
         (y < 0 \<longrightarrow> coord (const_points A ! argmin_idx (row_norms (const_points A) (x, y, z))) 1 = - A)"
proof -
  let ?cp = "const_points A"
  let ?k = "argmin_idx (row_norms ?cp (x, y, z))"
  from argmin_idx_min_set [OF const_points_nonempty, of A "(x, y, z)"]
  have k: "?k < 8" and le: "\<forall>q \<in> set ?cp. norm3 (psub (?cp ! ?k) (x, y, z)) \<le> norm3 (psub q (x, y, z))"
    by (simp_all add: const_points_length)
  obtain a b c where p: "?cp ! ?k = (a, b, c)" by (cases "?cp ! ?k") auto
  have "(a, b, c) \<in> set ?cp" using k p nth_mem [of ?k ?cp] by (simp add: const_points_length)
  then have abc: "a = - A \<or> a = A" "b = - A \<or> b = A" "c = - A \<or> c = A"
    by (simp_all add: const_points_mem)
  have min: "(a - x)\<^sup>2 + (b - y)\<^sup>2 + (c - z)\<^sup>2 \<le> (a' - x)\<^sup>2 + (b' - y)\<^sup>2 + (c' - z)\<^sup>2"
    if "a' = - A \<or> a' = A" "b' = - A \<or> b' = A" "c' = - A \<or> c' = A" for a' b' c'
  proof -
    have "(a', b', c') \<in> set ?cp" using that by (simp add: const_points_mem)
    with le have "norm3 (psub (?cp ! ?k) (x, y, z)) \<le> norm3 (psub (a', b', c') (x, y, z))"
      by blast
    then show ?thesis by (simp add: p)
  qed
  have x1: "a = A" if "0 < x"
  proof (rule ccontr)
    assume "a \<noteq> A"
    then have a: "a = - A" using abc by blast
    have "0 < A * x" using A that by simp
    from square_closer [OF this] min [of A b c] abc show False by (simp add: a)
  qed
  have x2: "a = - A" if "x < 0"
  proof (rule ccontr)
    assume "a \<noteq> - A"
    then have a: "a = A" using abc by blast
    have "A * x < 0" using A that by (simp add: mult_pos_neg)
    from square_closer_neg [OF this] min [of "- A" b c] abc show False by (simp add: a)
  qed
  have y1: "b = A" if "0 < y"
  proof (rule ccontr)
    assume "b \<noteq> A"
    then have b: "b = - A" using abc by blast
    have "0 < A * y" using A that by simp
    from square_closer [OF this] min [of a A c] abc show False by (simp add: b)
  qed
  have y2: "b = - A" if "y < 0"
  proof (rule ccontr)
    assume "b \<noteq> - A"
    then have b: "b = A" using abc by blast
    have "A * y < 0" using A that by (simp add: mult_pos_neg)
    from square_closer_neg [OF this] min [of a "- A" c] abc show False by (simp add: b)
  qed
  show ?thesis using k x1 x2 y1 y2 by (simp add: p)
qed

lemma linspace_length: "length (linspace start stop num) = num"
  by (simp add: linspace_def Let_def)

lemma grid_length: "length (grid A) = 200"
  by (simp add: grid_def linspace_length)

lemma grid_nth:
  assumes "i < 200"
  shows "grid A ! i = (if i = 199 then 2 * A else real i * (4 * A / 199) - 2 * A)"
  using assms by (simp add: grid_def linspace_def Let_def nth_list_update)

lemma grid_nonzero:
  assumes "A \<noteq> 0" and "i < 200"
  shows "grid A ! i \<noteq> 0"
proof (cases "i = 199")
  case True
  then show ?thesis using assms by (simp add: grid_nth)
next
  case False
  have "real i * (4 * A / 199) - 2 * A = A * ((4 * real i - 398) / 199)"
    by (simp add: field_simps)
  moreover have "4 * real i - 398 \<noteq> 0"
  proof
    assume "4 * real i - 398 = 0"
    then have "real (4 * i) = real 398" by simp
    then have "4 * i = 398" by (simp only: of_nat_eq_iff)
    then show False by presburger
  qed
  ultimately show ?thesis using assms False by (simp add: grid_nth)
qed

lemma X_eq: "X A = replicate 200 (grid A)"
  by (simp add: X_def meshgrid_def grid_length)

lemma Y_eq: "Y A = map (\<lambda>y. replicate 200 y) (grid A)"
  by (simp add: Y_def meshgrid_def grid_length)

lemma X_nth: "r < 200 \<Longrightarrow> c < 200 \<Longrightarrow> X A ! r ! c = grid A ! c"
  by (simp add: X_eq)

lemma Y_nth: "r < 200 \<Longrightarrow> c < 200 \<Longrightarrow> Y A ! r ! c = grid A ! r"
  by (simp add: Y_eq grid_length)

lemma shape2_X: "shape2 (X A) = (200, 200)"
proof -
  have "X A = grid A # replicate 199 (grid A)"
    unfolding X_eq by (simp add: replicate_Suc [symmetric] del: replicate_Suc)
  then show ?thesis by (simp add: shape2_def grid_length)
qed

lemma zip_row2: "zip xs (replicate (length xs) (y, 0::real)) = map (\<lambda>x. (x, y, 0)) xs"
  by (induction xs) simp_all

lemma stack_mesh:
  "zip (concat (replicate (length ys) xs))
       (zip (concat (map (\<lambda>y. replicate (length xs) y) ys))
            (concat (replicate (length ys) (replicate (length xs) (0::real)))))
   = concat (map (\<lambda>y. map (\<lambda>x. (x, y, 0)) xs) ys)"
  by (induction ys) (simp_all add: zip_row2)

lemma all_points_eq:
  "all_points A = concat (map (\<lambda>y. map (\<lambda>x. (x, y, 0)) (grid A)) (grid A))"
proof -
  have z: "Z A = replicate (length (grid A)) (replicate (length (grid A)) 0)"
    by (simp add: Z_def zeros_like_def X_eq grid_length map_replicate_const)
  have x: "X A = replicate (length (grid A)) (grid A)" by (simp add: X_eq grid_length)
  have y: "Y A = map (\<lambda>y. replicate (length (grid A)) y) (grid A)"
    by (simp add: Y_eq grid_length)
  show ?thesis
    unfolding all_points_def stack3_def flatten_def x y z by (rule stack_mesh)
qed

lemma length_concat_rows:
  "\<forall>row \<in> set rows. length row = m \<Longrightarrow> length (concat rows) = length rows * m"
  by (induction rows) simp_all

lemma chunk_nth:
  "\<forall>row \<in> set rows. length row = m \<Longrightarrow> r < length rows \<Longrightarrow>
   take m (drop (r * m) (concat rows)) = rows ! r"
proof (induction rows arbitrary: r)
  case Nil
  then show ?case by simp
next
  case (Cons row rows)
  show ?case
  proof (cases r)
    case 0
    then show ?thesis using Cons.prems by simp
  next
    case (Suc r')
    then show ?thesis using Cons by simp
  qed
qed

lemma reshape2_concat:
  assumes "\<forall>row \<in> set rows. length row = m"
  shows "reshape2 (length rows, m) (concat rows) = Inr rows"
proof -
  have "map (\<lambda>r. take m (drop (r * m) (concat rows))) [0..<length rows] = rows"
    by (rule nth_equalityI) (simp_all add: chunk_nth [OF assms])
  then show ?thesis by (simp add: reshape2_def length_concat_rows [OF assms])
qed

lemma closest_eq:
  "closest A = Inr (map (\<lambda>y. map (\<lambda>x. argmin_idx (row_norms (const_points A) (x, y, 0)))
                                (grid A)) (grid A))"
proof -
  let ?near = "\<lambda>p. argmin_idx (row_norms (const_points A) p)"
  let ?rows = "map (\<lambda>y. map (\<lambda>x. ?near (x, y, 0)) (grid A)) (grid A)"
  have flat: "closest_flat (all_points A) (const_points A) = Inr (concat ?rows)"
    by (simp add: closest_flat_closed const_points_nonempty all_points_eq map_concat o_def)
  have "\<forall>row \<in> set ?rows. length row = 200" by (auto simp: grid_length)
  from reshape2_concat [OF this] have "reshape2 (200, 200) (concat ?rows) = Inr ?rows"
    by (simp add: grid_length)
  then show ?thesis by (simp add: closest_def flat shape2_X)
qed

text \<open>
  C6. For \<open>A > 0\<close> the map \<open>closest\<close> is a 200 by 200 array of constellation indices.
  No grid point lies on the line \<open>x = 0\<close> or \<open>y = 0\<close>; a grid point with \<open>x > 0\<close> is
  assigned a constellation point whose first coordinate is \<open>+A\<close>, one with \<open>x < 0\<close> a
  point whose first coordinate is \<open>-A\<close>, and likewise for \<open>y\<close> and the second
  coordinate: the regions change exactly across the two lines.
\<close>

theorem decision_regions_octants:
  assumes "0 < A"
  shows "\<exists>cl. closest A = Inr cl \<and> length cl = 200 \<and>
           (\<forall>r<200. length (cl ! r) = 200 \<and>
              (\<forall>c<200. cl ! r ! c < 8 \<and> X A ! r ! c \<noteq> 0 \<and> Y A ! r ! c \<noteq> 0 \<and>
                 (0 < X A ! r ! c \<longrightarrow> coord (const_points A ! (cl ! r ! c)) 0 = A) \<and>
                 (X A ! r ! c < 0 \<longrightarrow> coord (const_points A ! (cl ! r ! c)) 0 = - A) \<and>
                 (0 < Y A ! r ! c \<longrightarrow> coord (const_points A ! (cl ! r ! c)) 1 = A) \<and>
                 (Y A ! r ! c < 0 \<longrightarrow> coord (const_points A ! (cl ! r ! c)) 1 = - A)))"
proof -
  let ?near = "\<lambda>p. argmin_idx (row_norms (const_points A) p)"
  let ?cl = "map (\<lambda>y. map (\<lambda>x. ?near (x, y, 0)) (grid A)) (grid A)"
  have ne: "A \<noteq> 0" using assms by simp
  have cell: "length (?cl ! r) = 200 \<and>
      (\<forall>c<200. ?cl ! r ! c < 8 \<and> X A ! r ! c \<noteq> 0 \<and> Y A ! r ! c \<noteq> 0 \<and>
         (0 < X A ! r ! c \<longrightarrow> coord (const_points A ! (?cl ! r ! c)) 0 = A) \<and>
         (X A ! r ! c < 0 \<longrightarrow> coord (const_points A ! (?cl ! r ! c)) 0 = - A) \<and>
         (0 < Y A ! r ! c \<longrightarrow> coord (const_points A ! (?cl ! r ! c)) 1 = A) \<and>
         (Y A ! r ! c < 0 \<longrightarrow> coord (const_points A ! (?cl ! r ! c)) 1 = - A))"
    if r: "r < 200" for r
  proof (intro conjI allI impI)
    show "length (?cl ! r) = 200" using r by (simp add: grid_length)
  next
    fix c :: nat assume c: "c < 200"
    have e: "?cl ! r ! c = ?near (grid A ! c, grid A ! r, 0)"
      using r c by (simp add: grid_length)
    note o = nearest_octant [OF assms, of "grid A ! c" "grid A ! r" 0]
    show "?cl ! r ! c < 8" unfolding e using o by blast
    show "X A ! r ! c \<noteq> 0" using grid_nonzero [OF ne c] r c by (simp add: X_nth)
    show "Y A ! r ! c \<noteq> 0" using grid_nonzero [OF ne r] r c by (simp add: Y_nth)
    show "coord (const_points A ! (?cl ! r ! c)) 0 = A" if "0 < X A ! r ! c"
      unfolding e using o that r c by (simp add: X_nth)
    show "coord (const_points A ! (?cl ! r ! c)) 0 = - A" if "X A ! r ! c < 0"
      unfolding e using o that r c by (simp add: X_nth)
    show "coord (const_points A ! (?cl ! r ! c)) 1 = A" if "0 < Y A ! r ! c"
      unfolding e using o that r c by (simp add: Y_nth)
    show "coord (const_points A ! (?cl ! r ! c)) 1 = - A" if "Y A ! r ! c < 0"
      unfolding e using o that r c by (simp add: Y_nth)
  qed
  have "length ?cl = 200" by (simp add: grid_length)
  then show ?thesis using closest_eq [of A] cell by blast
qed

theorem decision_regions_octants_witness:
  "(0::real) < 1 / 100 \<and> (0::nat) < 200 \<and> (199::nat) < 200 \<and>
   0 < X (1 / 100) ! 0 ! 199 \<and> Y (1 / 100) ! 0 ! 199 < 0 \<and>
   (\<exists>cl. closest (1 / 100) = Inr cl \<and>
      coord (const_points (1 / 100) ! (cl ! 0 ! 199)) 0 = 1 / 100 \<and>
      coord (const_points (1 / 100) ! (cl ! 0 ! 199)) 1 = - (1 / 100))"
proof -
  have x: "0 < X (1 / 100) ! 0 ! 199" by (simp add: X_nth grid_nth)
  have y: "Y (1 / 100) ! 0 ! 199 < 0" by (simp add: Y_nth grid_nth)
  from decision_regions_octants [of "1 / 100"] obtain cl where
    cl: "closest (1 / 100) = Inr cl" and
    all: "\<forall>r<200. length (cl ! r) = 200 \<and>
              (\<forall>c<200. cl ! r ! c < 8 \<and> X (1 / 100) ! r ! c \<noteq> 0 \<and> Y (1 / 100) ! r ! c \<noteq> 0 \<and>
                 (0 < X (1 / 100) ! r ! c \<longrightarrow> coord (const_points (1 / 100) ! (cl ! r ! c)) 0 = 1 / 100) \<and>
                 (X (1 / 100) ! r ! c < 0 \<longrightarrow> coord (const_points (1 / 100) ! (cl ! r ! c)) 0 = - (1 / 100)) \<and>
                 (0 < Y (1 / 100) ! r ! c \<longrightarrow> coord (const_points (1 / 100) ! (cl ! r ! c)) 1 = 1 / 100) \<and>
                 (Y (1 / 100) ! r ! c < 0 \<longrightarrow> coord (const_points (1 / 100) ! (cl ! r ! c)) 1 = - (1 / 100)))"
    by auto
  have "(0::nat) < 200" "(199::nat) < 200" by simp_all
  with all x y have
    "coord (const_points (1 / 100) ! (cl ! 0 ! 199)) 0 = 1 / 100"
    "coord (const_points (1 / 100) ! (cl ! 0 ! 199)) 1 = - (1 / 100)"
    by blast+
  with cl x y show ?thesis by simp
qed

end
